theory Spec2Isabelle
  imports Main
begin

section \<open>Go values as package reflect sees them\<close>

text \<open>
  \<open>GetMultipartBody\<close> walks its argument with package \<open>reflect\<close>. A Go value is
  modelled by its runtime shape: the constructor gives the \<open>reflect.Kind\<close>, and the
  payload is what \<open>IsZero\<close> inspects. The sized integer kinds are collapsed into
  \<open>VInt\<close>; the floating and complex kinds are left out (they fall under the same
  \<open>default\<close> branch of the kind switch as the other scalars). A reference value
  (channel, function, pointer, slice, map, interface) is \<open>None\<close> when it is nil.

  A struct field carries what \<open>reflect.StructField\<close> gives the code: its identifier
  \<open>Name\<close>, the result of \<open>Tag.Get("json")\<close>, and \<open>PkgPath\<close>, which is empty
  exactly for an exported field.
\<close>

datatype kind =
    KBool | KInt | KString | KChan | KFunc | KInterface
  | KMap | KPointer | KSlice | KArray | KStruct

datatype 'v sfield =
  SField (field_Name: string) (Tag_json: string) (PkgPath: string) (field_Val: 'v)

datatype gvalue =
    VBool bool
  | VInt int
  | VString string
  | VChan "nat option"
  | VFunc "nat option"
  | VIface "gvalue option"
  | VPtr "gvalue option"
  | VSlice "gvalue list option"
  | VArray "gvalue list"
  | VMap "(gvalue \<times> gvalue) list option"
  | VStruct "gvalue sfield list"

text \<open>A value of the interface type \<open>any\<close>: \<open>None\<close> is the nil interface.\<close>

type_synonym iface = "gvalue option"

fun Value_Kind :: "gvalue \<Rightarrow> kind" where
  "Value_Kind (VBool _) = KBool"
| "Value_Kind (VInt _) = KInt"
| "Value_Kind (VString _) = KString"
| "Value_Kind (VChan _) = KChan"
| "Value_Kind (VFunc _) = KFunc"
| "Value_Kind (VIface _) = KInterface"
| "Value_Kind (VPtr _) = KPointer"
| "Value_Kind (VSlice _) = KSlice"
| "Value_Kind (VArray _) = KArray"
| "Value_Kind (VMap _) = KMap"
| "Value_Kind (VStruct _) = KStruct"

text \<open>
  \<open>reflect.Value.IsZero\<close>: scalars compare with their zero, reference kinds are zero
  when nil, an array or a struct is zero when every element or field is.
\<close>

function (sequential) Value_IsZero :: "gvalue \<Rightarrow> bool" where
  "Value_IsZero (VBool b) = (\<not> b)"
| "Value_IsZero (VInt i) = (i = 0)"
| "Value_IsZero (VString s) = (s = [])"
| "Value_IsZero (VChan c) = (c = None)"
| "Value_IsZero (VFunc f) = (f = None)"
| "Value_IsZero (VIface x) = (x = None)"
| "Value_IsZero (VPtr p) = (p = None)"
| "Value_IsZero (VSlice xs) = (xs = None)"
| "Value_IsZero (VArray xs) = list_all Value_IsZero xs"
| "Value_IsZero (VMap m) = (m = None)"
| "Value_IsZero (VStruct fs) = list_all (\<lambda>f. Value_IsZero (field_Val f)) fs"
  by pat_completeness auto
termination
proof (relation "measure size")
  show "wf (measure size)" by simp
next
  fix xs :: "gvalue list" and x
  assume "x \<in> set xs"
  then show "(x, VArray xs) \<in> measure size"
    by (induction xs) auto
next
  fix fs :: "gvalue sfield list" and f
  assume "f \<in> set fs"
  then show "(field_Val f, VStruct fs) \<in> measure size"
    by (induction fs) (auto, cases f, simp)
qed

section \<open>Outcomes, errors and the library the code calls\<close>

text \<open>
  A Go call either panics or returns. The panics the code can reach are those of
  \<open>reflect\<close> (\<open>NumField\<close> on a value that is not a struct, \<open>Interface\<close> on a
  value read from an unexported field, \<open>IsZero\<close> on the zero \<open>Value\<close> that
  \<open>reflect.ValueOf(nil)\<close> gives), an index out of range, and whatever ends the
  process inside \<open>json.Marshal\<close> or \<open>fmt.Sprintf\<close>: \<open>json.Marshal\<close> raises again
  a panic of a \<open>MarshalJSON\<close> method, and \<open>fmt.Sprintf\<close> overflows the stack on a
  value that contains itself. The code has no \<open>recover\<close>, so each of them ends the
  call.
\<close>

datatype panic =
    NumField_of_non_struct
  | Interface_of_unexported_field
  | IsZero_of_zero_Value
  | index_out_of_range
  | panic_in_library string

datatype 'a outcome = Panic panic | Return 'a

datatype error = UnsupportedTypeError string | PathError string string | IOError string

text \<open>
  The body under construction is kept as the list of parts written so far, not as the
  bytes \<open>mime/multipart\<close> renders them to (the boundary is random). A form field has
  a name and a value; a file part has a field name, a file name and the bytes copied.
\<close>

datatype part = FormField string string | FormFile string string string

text \<open>
  What \<open>io.Reader\<close> the builders return: a \<open>bytes.Buffer\<close> holding raw bytes
  (the JSON builder) or the multipart parts, with a flag telling whether the closing
  boundary was written. The nil reader is \<open>None\<close>.
\<close>

datatype Buffer = Bytes string | Multipart "part list" bool

record BodyOptions =
  ContentType :: string

text \<open>
  Modelled from the spec: \<open>entity.FileEnvelop\<close> is declared in a package that is not
  part of the source at hand; the spec gives a file attachment as a wire field name and
  a file system path, and the code reads exactly these two string fields.
\<close>

record FileEnvelop =
  Name :: string
  Path :: string

text \<open>
  An opened file: the bytes \<open>io.Copy\<close> transfers from it, and the error \<open>io.Copy\<close>
  ends with, if any.
\<close>

datatype os_File = File (contents: string) (copy_fault: "error option")

text \<open>
  The library calls of the code are parameters of the model: \<open>json.Marshal\<close> and
  \<open>fmt.Sprintf("%v", _)\<close>, each of which returns or panics, \<open>os.Open\<close>,
  \<open>filepath.Base\<close>, and the failures of the \<open>multipart.Writer\<close> operations (each
  may depend on the parts written so far). Every theorem below holds for all of them.
  Running out of memory is outside the model.
\<close>

record env =
  json_Marshal :: "iface \<Rightarrow> (error + string) outcome"
  fmt_Sprint :: "iface \<Rightarrow> string outcome"
  os_Open :: "string \<Rightarrow> error + os_File"
  filepath_Base :: "string \<Rightarrow> string"
  WriteField_err :: "part list \<Rightarrow> string \<Rightarrow> string \<Rightarrow> error option"
  CreateFormFile_err :: "part list \<Rightarrow> string \<Rightarrow> string \<Rightarrow> error option"
  Close_err :: "part list \<Rightarrow> error option"
  FormDataContentType :: string

text \<open>
  The file handles of the process: the paths of the handles that are open, and the
  paths \<open>os.Open\<close> was called with, in call order.
\<close>

record world =
  open_handles :: "string list"
  open_calls :: "string list"

section \<open>String helpers of package strings\<close>

text \<open>\<open>strings.Split(s, sep)\<close> for a separator of one byte.\<close>

fun strings_Split :: "string \<Rightarrow> char \<Rightarrow> string list" where
  "strings_Split [] sep = [[]]"
| "strings_Split (c # cs) sep =
     (if c = sep then [] # strings_Split cs sep
      else (case strings_Split cs sep of
              [] \<Rightarrow> [[c]]
            | x # xs \<Rightarrow> (c # x) # xs))"

fun strings_HasPrefix :: "string \<Rightarrow> string \<Rightarrow> bool" where
  "strings_HasPrefix s [] = True"
| "strings_HasPrefix [] (p # ps) = False"
| "strings_HasPrefix (c # cs) (p # ps) = (c = p \<and> strings_HasPrefix cs ps)"

fun strings_Contains :: "string \<Rightarrow> string \<Rightarrow> bool" where
  "strings_Contains [] sub = (sub = [])"
| "strings_Contains (c # cs) sub =
     (strings_HasPrefix (c # cs) sub \<or> strings_Contains cs sub)"

section \<open>coalesce\<close>

text \<open>
  \<open>coalesce[T any](value ...T) T\<close> (lines 156 to 166). The argument \<open>to_any\<close> is
  the conversion of a \<open>T\<close> to \<open>any\<close> that the call
  \<open>reflect.ValueOf(value[0])\<close> performs, and \<open>zero\<close> is \<open>*new(T)\<close>. \<open>reflect.ValueOf\<close> of the nil interface is the zero
  \<open>Value\<close>, on which \<open>IsZero\<close> panics; the test \<open>len(value) == 1\<close> comes first and
  short-circuits the reflection.
\<close>

fun coalesce :: "('a \<Rightarrow> iface) \<Rightarrow> 'a \<Rightarrow> 'a list \<Rightarrow> 'a outcome" where
  "coalesce to_any zero [] = Return zero"
| "coalesce to_any zero (v # vs) =
     (if vs = [] then Return v
      else (case to_any v of
              None \<Rightarrow> Panic IsZero_of_zero_Value
            | Some r \<Rightarrow>
                if \<not> Value_IsZero r then Return v
                else coalesce to_any zero vs))"

text \<open>The conversion of a Go \<open>string\<close> to \<open>any\<close>.\<close>

definition string_to_any :: "string \<Rightarrow> iface" where
  "string_to_any s = Some (VString s)"

section \<open>GetJSONBody\<close>


section \<open>GetMultipartBody\<close>

text \<open>
  The field name of the loop body (lines 47 to 49):
  \<open>coalesce(strings.Split(tag, ",")[0], field.Name)\<close>.
\<close>

definition fieldName_of :: "gvalue sfield \<Rightarrow> string outcome" where
  "fieldName_of f =
     (case strings_Split (Tag_json f) (CHR '','') of
        [] \<Rightarrow> Panic index_out_of_range
      | seg # _ \<Rightarrow> coalesce string_to_any [] [seg, field_Name f])"

text \<open>
  The inner loop over \<open>files\<close> (lines 52 to 57), which stops at the first equal name.
\<close>

fun name_in_files :: "string \<Rightarrow> FileEnvelop list \<Rightarrow> bool" where
  "name_in_files n [] = False"
| "name_in_files n (fl # fls) = (if Name fl = n then True else name_in_files n fls)"

text \<open>
  The value of \<open>skip\<close> when the loop body tests it (line 66): set by a file of the
  same name, then by the \<open>,omitempty\<close> test on a zero value (lines 59 to 64).
\<close>

definition skip_field :: "FileEnvelop list \<Rightarrow> string \<Rightarrow> gvalue sfield \<Rightarrow> bool" where
  "skip_field files fieldName f =
     (let skip = name_in_files fieldName files
      in if strings_Contains (Tag_json f) '',omitempty'' \<and> Value_IsZero (field_Val f)
         then True else skip)"

text \<open>
  \<open>msgValue.Field(i).Interface()\<close>: panics on a field that is not exported; a field of
  interface type gives the interface value it holds.
\<close>

definition Field_Interface :: "gvalue sfield \<Rightarrow> iface outcome" where
  "Field_Interface f =
     (if PkgPath f \<noteq> [] then Panic Interface_of_unexported_field
      else Return (case field_Val f of VIface x \<Rightarrow> x | v \<Rightarrow> Some v))"

definition WriteField :: "env \<Rightarrow> part list \<Rightarrow> string \<Rightarrow> string \<Rightarrow> error + part list" where
  "WriteField env w name val =
     (case WriteField_err env w name val of
        Some err \<Rightarrow> Inl err
      | None \<Rightarrow> Inr (w @ [FormField name val]))"

text \<open>
  One iteration of the loop over the fields (lines 46 to 89); \<open>WriteField\<close> appends
  one form field unless the writer fails. \<open>Return (Inl err)\<close> is the early
  \<open>return nil, BodyOptions{}, err\<close>; \<open>Return (Inr w)\<close> goes on with the next field.
\<close>

definition field_step ::
  "env \<Rightarrow> FileEnvelop list \<Rightarrow> gvalue sfield \<Rightarrow> part list \<Rightarrow> (error + part list) outcome" where
  "field_step env files f w =
     (case fieldName_of f of
        Panic p \<Rightarrow> Panic p
      | Return fieldName \<Rightarrow>
          if skip_field files fieldName f then Return (Inr w)
          else if Value_Kind (field_Val f) \<in> {KStruct, KMap, KArray, KSlice} then
            (case Field_Interface f of
               Panic p \<Rightarrow> Panic p
             | Return x \<Rightarrow>
                 (case json_Marshal env x of
                    Panic p \<Rightarrow> Panic p
                  | Return (Inl err) \<Rightarrow> Return (Inl err)
                  | Return (Inr js) \<Rightarrow> Return (WriteField env w fieldName js)))
          else
            (case Field_Interface f of
               Panic p \<Rightarrow> Panic p
             | Return x \<Rightarrow>
                 (case fmt_Sprint env x of
                    Panic p \<Rightarrow> Panic p
                  | Return val \<Rightarrow> Return (WriteField env w fieldName val))))"

fun field_loop ::
  "env \<Rightarrow> FileEnvelop list \<Rightarrow> gvalue sfield list \<Rightarrow> part list \<Rightarrow> (error + part list) outcome" where
  "field_loop env files [] w = Return (Inr w)"
| "field_loop env files (f # fs) w =
     (case field_step env files f w of
        Panic p \<Rightarrow> Panic p
      | Return (Inl err) \<Rightarrow> Return (Inl err)
      | Return (Inr w') \<Rightarrow> field_loop env files fs w')"

text \<open>
  The closure run for one attachment (lines 92 to 108). The deferred \<open>file.Close()\<close>
  runs when the closure returns, whichever \<open>return\<close> it leaves by, and its error is
  dropped.
\<close>

definition attach_file ::
  "env \<Rightarrow> FileEnvelop \<Rightarrow> part list \<Rightarrow> world \<Rightarrow> error option \<times> part list \<times> world" where
  "attach_file env fl w s =
     (let s1 = s\<lparr>open_calls := open_calls s @ [Path fl]\<rparr> in
      case os_Open env (Path fl) of
        Inl err \<Rightarrow> (Some err, w, s1)
      | Inr file \<Rightarrow>
          (let s2 = s1\<lparr>open_handles := Path fl # open_handles s1\<rparr>;
               (err, w') =
                 (case CreateFormFile_err env w (Name fl) (filepath_Base env (Path fl)) of
                    Some err \<Rightarrow> (Some err, w)
                  | None \<Rightarrow>
                      (copy_fault file,
                       w @ [FormFile (Name fl) (filepath_Base env (Path fl)) (contents file)]))
           in (err, w', s2\<lparr>open_handles := remove1 (Path fl) (open_handles s2)\<rparr>)))"

fun file_loop ::
  "env \<Rightarrow> FileEnvelop list \<Rightarrow> part list \<Rightarrow> world \<Rightarrow> error option \<times> part list \<times> world" where
  "file_loop env [] w s = (None, w, s)"
| "file_loop env (fl # fls) w s =
     (case attach_file env fl w s of
        (Some err, w', s') \<Rightarrow> (Some err, w', s')
      | (None, w', s') \<Rightarrow> file_loop env fls w' s')"

text \<open>
  The whole function (lines 41 to 114), from the state of the process before the call to
  the outcome and the state after it. The loop over the fields starts from the empty
  body; the loop over the attachments (lines 91 to 111) returns at the first error.
  The last line returns the buffer, the content type of the writer and whatever
  \<open>writer.Close()\<close> returns, together. \<open>NumField\<close> panics unless \<open>msg\<close> holds
  a struct (not a pointer to one, and not nil).
\<close>

definition GetMultipartBody ::
  "env \<Rightarrow> iface \<Rightarrow> FileEnvelop list \<Rightarrow> world
     \<Rightarrow> (Buffer option \<times> BodyOptions \<times> error option) outcome \<times> world" where
  "GetMultipartBody env msg files s =
     (case msg of
        Some (VStruct fs) \<Rightarrow>
          (case field_loop env files fs [] of
             Panic p \<Rightarrow> (Panic p, s)
           | Return (Inl err) \<Rightarrow> (Return (None, \<lparr>ContentType = []\<rparr>, Some err), s)
           | Return (Inr w) \<Rightarrow>
               (case file_loop env files w s of
                  (Some err, w', s') \<Rightarrow> (Return (None, \<lparr>ContentType = []\<rparr>, Some err), s')
                | (None, w', s') \<Rightarrow>
                    (case Close_err env w' of
                       Some err \<Rightarrow>
                         (Return (Some (Multipart w' False),
                                  \<lparr>ContentType = FormDataContentType env\<rparr>, Some err), s')
                     | None \<Rightarrow>
                         (Return (Some (Multipart w' True),
                                  \<lparr>ContentType = FormDataContentType env\<rparr>, None), s'))))
      | _ \<Rightarrow> (Panic NumField_of_non_struct, s))"

section \<open>The rules of the specification\<close>

text \<open>
  The wire-name rule as the specification words it: the first comma-separated segment
  of the json tag when that segment is not empty, otherwise the identifier of the field.
\<close>

definition wire_name :: "gvalue sfield \<Rightarrow> string" where
  "wire_name f =
     (let seg = takeWhile (\<lambda>c. c \<noteq> CHR '','') (Tag_json f)
      in if seg \<noteq> [] then seg else field_Name f)"

text \<open>A field is marked omit-if-empty when its json tag contains \<open>,omitempty\<close>.\<close>

definition omit_marked :: "gvalue sfield \<Rightarrow> bool" where
  "omit_marked f = strings_Contains (Tag_json f) '',omitempty''"

text \<open>A field is skipped when the loop body reaches \<open>continue\<close> for it.\<close>

definition skipped :: "FileEnvelop list \<Rightarrow> gvalue sfield \<Rightarrow> bool" where
  "skipped files f = skip_field files (wire_name f) f"

text \<open>The first case of the kind switch: struct, map, array or slice.\<close>

definition composite :: "gvalue sfield \<Rightarrow> bool" where
  "composite f = (Value_Kind (field_Val f) \<in> {KStruct, KMap, KArray, KSlice})"

text \<open>The interface value that \<open>Interface()\<close> gives for an exported field.\<close>

definition iface_of :: "gvalue sfield \<Rightarrow> iface" where
  "iface_of f = (case field_Val f of VIface x \<Rightarrow> x | v \<Rightarrow> Some v)"

text \<open>
  The value a field is written with: the JSON encoding for a composite field, the
  \<open>%v\<close> rendering for every other one.
\<close>

definition field_text :: "env \<Rightarrow> gvalue sfield \<Rightarrow> string" where
  "field_text env f =
     (if composite f
      then (case json_Marshal env (iface_of f) of Return (Inr js) \<Rightarrow> js | _ \<Rightarrow> [])
      else (case fmt_Sprint env (iface_of f) of Return val \<Rightarrow> val | Panic _ \<Rightarrow> []))"

text \<open>
  The library call the loop makes for a field returns: \<open>json.Marshal\<close> for a composite
  field, \<open>fmt.Sprintf\<close> for every other one.
\<close>

definition library_returns :: "env \<Rightarrow> gvalue sfield \<Rightarrow> bool" where
  "library_returns env f =
     (if composite f
      then (case json_Marshal env (iface_of f) of Return _ \<Rightarrow> True | Panic _ \<Rightarrow> False)
      else (case fmt_Sprint env (iface_of f) of Return _ \<Rightarrow> True | Panic _ \<Rightarrow> False))"

definition field_part :: "env \<Rightarrow> gvalue sfield \<Rightarrow> part" where
  "field_part env f = FormField (wire_name f) (field_text env f)"

section \<open>A sample environment\<close>

text \<open>
  A small stand-in for the library, exact on the values the examples below use: JSON for
  nil, booleans, nil and empty slices and the empty struct, with channels and functions
  refused as \<open>json.Marshal\<close> refuses them; \<open>%v\<close> for strings, booleans and a pointer
  to the empty struct; one file that exists; the last element of a slash-separated path;
  a writer that never fails.
\<close>

definition sample_Marshal :: "iface \<Rightarrow> (error + string) outcome" where
  "sample_Marshal x =
     Return (case x of
        None \<Rightarrow> Inr ''null''
      | Some (VBool b) \<Rightarrow> Inr (if b then ''true'' else ''false'')
      | Some (VSlice None) \<Rightarrow> Inr ''null''
      | Some (VSlice (Some [])) \<Rightarrow> Inr ''[]''
      | Some (VSlice (Some (VChan c # xs))) \<Rightarrow> Inl (UnsupportedTypeError ''chan'')
      | Some (VStruct []) \<Rightarrow> Inr ''{}''
      | Some (VChan c) \<Rightarrow> Inl (UnsupportedTypeError ''chan'')
      | Some (VFunc c) \<Rightarrow> Inl (UnsupportedTypeError ''func'')
      | _ \<Rightarrow> Inl (UnsupportedTypeError ''not in the sample''))"

definition sample_Sprint :: "iface \<Rightarrow> string outcome" where
  "sample_Sprint x =
     Return (case x of
        None \<Rightarrow> ''<nil>''
      | Some (VString s) \<Rightarrow> s
      | Some (VBool b) \<Rightarrow> (if b then ''true'' else ''false'')
      | Some (VPtr (Some (VStruct []))) \<Rightarrow> ''&{}''
      | _ \<Rightarrow> ''?'')"

definition sample_Base :: "string \<Rightarrow> string" where
  "sample_Base p =
     (if p = [] then ''.''
      else (let q = dropWhile (\<lambda>c. c = CHR ''/'') (rev p)
            in if q = [] then ''/'' else rev (takeWhile (\<lambda>c. c \<noteq> CHR ''/'') q)))"

definition sample_env :: env where
  "sample_env =
     \<lparr>json_Marshal = sample_Marshal,
      fmt_Sprint = sample_Sprint,
      os_Open = (\<lambda>p. if p = ''/tmp/a.jpg'' then Inr (File ''JFIF'' None)
                      else Inl (PathError ''open'' p)),
      filepath_Base = sample_Base,
      WriteField_err = (\<lambda>w n v. None),
      CreateFormFile_err = (\<lambda>w n f. None),
      Close_err = (\<lambda>w. None),
      FormDataContentType = ''multipart/form-data; boundary=5c1e''\<rparr>"


definition no_handles :: world where
  "no_handles = \<lparr>open_handles = [], open_calls = []\<rparr>"

text \<open>
  The record of the specification's examples, \<open>Chat\<close> with wire name \<open>chat_id\<close>
  and value \<open>"123"\<close> and \<open>Caption\<close> with wire name \<open>caption\<close>, omit-if-empty
  and empty, and its attachment \<open>photo\<close>, once with a file that exists and once
  without; then fields of other shapes: a string field named as the attachment, a
  boolean, an untagged empty slice, a slice holding a channel, a pointer to an empty
  struct, and a field that is not exported.
\<close>

definition chat_field :: "gvalue sfield" where
  "chat_field = SField ''Chat'' ''chat_id'' [] (VString ''123'')"

definition caption_field :: "gvalue sfield" where
  "caption_field = SField ''Caption'' ''caption,omitempty'' [] (VString [])"

definition photo_field :: "gvalue sfield" where
  "photo_field = SField ''Photo'' ''photo'' [] (VString ''stale.png'')"

definition silent_field :: "gvalue sfield" where
  "silent_field = SField ''Silent'' ''disable_notification'' [] (VBool True)"

definition tags_field :: "gvalue sfield" where
  "tags_field = SField ''Tags'' [] [] (VSlice (Some []))"

definition events_field :: "gvalue sfield" where
  "events_field = SField ''Events'' ''events'' [] (VSlice (Some [VChan (Some 0)]))"

definition markup_field :: "gvalue sfield" where
  "markup_field = SField ''Markup'' ''reply_markup'' [] (VPtr (Some (VStruct [])))"

definition secret_field :: "gvalue sfield" where
  "secret_field = SField ''secret'' [] ''gotbot'' (VInt 7)"

definition sample_msg :: iface where
  "sample_msg = Some (VStruct [chat_field, caption_field])"

definition sample_photo :: FileEnvelop where
  "sample_photo = \<lparr>Name = ''photo'', Path = ''/tmp/a.jpg''\<rparr>"

definition missing_photo :: FileEnvelop where
  "missing_photo = \<lparr>Name = ''photo'', Path = ''/tmp/gone.jpg''\<rparr>"

section \<open>Auxiliary facts\<close>

text \<open>The equations that evaluate the model on the sample values.\<close>

lemmas eval_defs = GetMultipartBody_def field_step_def fieldName_of_def skip_field_def
  Field_Interface_def WriteField_def attach_file_def string_to_any_def
  sample_env_def sample_Marshal_def sample_Sprint_def sample_Base_def no_handles_def
  sample_msg_def sample_photo_def missing_photo_def chat_field_def caption_field_def

lemmas rule_defs = wire_name_def omit_marked_def skipped_def composite_def iface_of_def
  field_text_def field_part_def

lemma strings_Split_takeWhile:
  "\<exists>rest. strings_Split s sep = takeWhile (\<lambda>c. c \<noteq> sep) s # rest"
  by (induction s) (auto split: list.splits)

lemma coalesce_two_strings:
  "coalesce string_to_any [] [seg, n] = Return (if seg \<noteq> [] then seg else n)"
  by (simp add: string_to_any_def)

lemma fieldName_of_wire_name: "fieldName_of f = Return (wire_name f)"
proof -
  obtain rest where "strings_Split (Tag_json f) (CHR '','')
      = takeWhile (\<lambda>c. c \<noteq> CHR '','') (Tag_json f) # rest"
    using strings_Split_takeWhile by blast
  then show ?thesis
    by (simp add: fieldName_of_def wire_name_def coalesce_two_strings Let_def del: coalesce.simps)
qed

lemma name_in_files_iff: "name_in_files n files \<longleftrightarrow> n \<in> Name ` set files"
  by (induction files) auto

lemma field_step_skipped:
  "skipped files f \<Longrightarrow> field_step env files f w = Return (Inr w)"
  by (simp add: field_step_def fieldName_of_wire_name skipped_def)

lemma field_step_Inr:
  assumes "field_step env files f w = Return (Inr w')"
  shows "if skipped files f then w' = w
         else PkgPath f = [] \<and> w' = w @ [field_part env f]
              \<and> (composite f \<longrightarrow> (\<exists>js. json_Marshal env (iface_of f) = Return (Inr js)))
              \<and> (\<not> composite f \<longrightarrow> (\<exists>val. fmt_Sprint env (iface_of f) = Return val))"
  using assms
  by (auto simp: field_step_def fieldName_of_wire_name skipped_def Field_Interface_def
        WriteField_def field_part_def field_text_def composite_def iface_of_def
      split: if_splits sum.splits option.splits outcome.splits)

lemma field_loop_append:
  "field_loop env files (fs1 @ fs2) w =
     (case field_loop env files fs1 w of
        Panic p \<Rightarrow> Panic p
      | Return (Inl err) \<Rightarrow> Return (Inl err)
      | Return (Inr w') \<Rightarrow> field_loop env files fs2 w')"
  by (induction fs1 arbitrary: w) (auto split: outcome.splits sum.splits)

lemma field_loop_Inr:
  "field_loop env files fs w = Return (Inr w') \<Longrightarrow>
     w' = w @ map (field_part env) (filter (\<lambda>f. \<not> skipped files f) fs)"
proof (induction fs arbitrary: w)
  case Nil
  then show ?case by simp
next
  case (Cons f fs)
  from Cons.prems obtain w1 where
    step: "field_step env files f w = Return (Inr w1)" and
    rest: "field_loop env files fs w1 = Return (Inr w')"
    by (auto split: outcome.splits sum.splits)
  from field_step_Inr[OF step] Cons.IH[OF rest] show ?case
    by (auto split: if_splits)
qed

lemma field_loop_Inr_ok:
  "field_loop env files fs w = Return (Inr w') \<Longrightarrow> f \<in> set fs \<Longrightarrow> \<not> skipped files f \<Longrightarrow>
     PkgPath f = []
     \<and> (composite f \<longrightarrow> (\<exists>js. json_Marshal env (iface_of f) = Return (Inr js)))
     \<and> (\<not> composite f \<longrightarrow> (\<exists>val. fmt_Sprint env (iface_of f) = Return val))"
proof (induction fs arbitrary: w)
  case Nil
  then show ?case by simp
next
  case (Cons g fs)
  from Cons.prems(1) obtain w1 where
    step: "field_step env files g w = Return (Inr w1)" and
    rest: "field_loop env files fs w1 = Return (Inr w')"
    by (auto split: outcome.splits sum.splits)
  show ?case
  proof (cases "f = g")
    case True
    with field_step_Inr[OF step] Cons.prems(3) show ?thesis by simp
  next
    case False
    with Cons.prems(2) have "f \<in> set fs" by simp
    from Cons.IH[OF rest this Cons.prems(3)] show ?thesis .
  qed
qed

lemma attach_file_handles:
  "attach_file env fl w s = (r, w', s') \<Longrightarrow> open_handles s' = open_handles s"
  by (auto simp: attach_file_def Let_def split: sum.splits option.splits prod.splits)

lemma file_loop_handles:
  "file_loop env files w s = (r, w', s') \<Longrightarrow> open_handles s' = open_handles s"
proof (induction files arbitrary: w s)
  case Nil
  then show ?case by simp
next
  case (Cons fl fls)
  obtain r1 w1 s1 where a: "attach_file env fl w s = (r1, w1, s1)"
    by (cases "attach_file env fl w s") auto
  with Cons show ?case
    by (cases r1) (auto dest: attach_file_handles)
qed

lemma coalesce_find:
  assumes "\<forall>x \<in> set xs. \<exists>r. to_any x = Some r \<and> (Value_IsZero r \<longleftrightarrow> x = zero)"
  shows "coalesce to_any zero xs =
           Return (case find (\<lambda>x. x \<noteq> zero) xs of Some x \<Rightarrow> x | None \<Rightarrow> zero)"
  using assms
proof (induction xs)
  case Nil
  then show ?case by simp
next
  case (Cons x xs)
  then obtain r where r: "to_any x = Some r" "Value_IsZero r \<longleftrightarrow> x = zero"
    by auto
  show ?case
  proof (cases "xs = []")
    case True
    then show ?thesis by auto
  next
    case False
    with r Cons show ?thesis by auto
  qed
qed


lemma composite_iface_of: "composite f \<Longrightarrow> iface_of f = Some (field_Val f)"
  by (cases "field_Val f") (auto simp: composite_def iface_of_def)

lemma field_step_no_panic:
  "skipped files f \<or> (PkgPath f = [] \<and> library_returns env f) \<Longrightarrow>
     \<exists>r. field_step env files f w = Return r"
  by (auto simp: field_step_def fieldName_of_wire_name skipped_def Field_Interface_def
        library_returns_def composite_def iface_of_def
      split: sum.splits outcome.splits if_splits)

lemma field_loop_no_panic:
  "\<forall>f \<in> set fs. skipped files f \<or> (PkgPath f = [] \<and> library_returns env f) \<Longrightarrow>
     \<exists>r. field_loop env files fs w = Return r"
proof (induction fs arbitrary: w)
  case Nil
  then show ?case by simp
next
  case (Cons f fs)
  then obtain r where r: "field_step env files f w = Return r"
    using field_step_no_panic[of files f env w] by auto
  show ?case
  proof (cases r)
    case (Inl e)
    with r show ?thesis by simp
  next
    case (Inr w1)
    with r Cons show ?thesis by simp
  qed
qed

lemma field_step_ok:
  assumes "\<not> skipped files f" "PkgPath f = []"
    "composite f \<longrightarrow> (\<exists>js. json_Marshal env (iface_of f) = Return (Inr js))"
    "\<not> composite f \<longrightarrow> (\<exists>val. fmt_Sprint env (iface_of f) = Return val)"
    "\<forall>w n v. WriteField_err env w n v = None"
  shows "field_step env files f w = Return (Inr (w @ [field_part env f]))"
  using assms
  by (auto simp: field_step_def fieldName_of_wire_name skipped_def Field_Interface_def
        WriteField_def field_part_def field_text_def composite_def iface_of_def
      split: sum.splits outcome.splits)

lemma field_loop_ok:
  assumes "\<forall>f \<in> set fs. \<not> skipped files f \<longrightarrow>
             PkgPath f = []
             \<and> (composite f \<longrightarrow> (\<exists>js. json_Marshal env (iface_of f) = Return (Inr js)))
             \<and> (\<not> composite f \<longrightarrow> (\<exists>val. fmt_Sprint env (iface_of f) = Return val))"
    "\<forall>w n v. WriteField_err env w n v = None"
  shows "field_loop env files fs w =
           Return (Inr (w @ map (field_part env) (filter (\<lambda>f. \<not> skipped files f) fs)))"
  using assms(1)
proof (induction fs arbitrary: w)
  case Nil
  then show ?case by simp
next
  case (Cons f fs)
  show ?case
  proof (cases "skipped files f")
    case True
    with Cons show ?thesis by (simp add: field_step_skipped)
  next
    case False
    with Cons.prems have "field_step env files f w = Return (Inr (w @ [field_part env f]))"
      by (intro field_step_ok assms(2)) auto
    with False Cons show ?thesis by simp
  qed
qed

lemma attach_file_parts:
  "attach_file env fl w s = (r, w', s') \<Longrightarrow>
     \<exists>qs. w' = w @ qs \<and> list_all (\<lambda>q. \<exists>n fn c. q = FormFile n fn c) qs"
  by (auto simp: attach_file_def Let_def split: sum.splits option.splits prod.splits)

lemma file_loop_parts:
  "file_loop env files w s = (r, w', s') \<Longrightarrow>
     \<exists>qs. w' = w @ qs \<and> list_all (\<lambda>q. \<exists>n fn c. q = FormFile n fn c) qs"
proof (induction files arbitrary: w s)
  case Nil
  then show ?case by simp
next
  case (Cons fl fls)
  obtain r1 w1 s1 where a: "attach_file env fl w s = (r1, w1, s1)"
    by (cases "attach_file env fl w s") auto
  from attach_file_parts[OF a] obtain qs1 where
    q1: "w1 = w @ qs1" "list_all (\<lambda>q. \<exists>n fn c. q = FormFile n fn c) qs1" by blast
  show ?case
  proof (cases r1)
    case None
    with a Cons.prems have "file_loop env fls w1 s1 = (r, w', s')" by simp
    from Cons.IH[OF this] obtain qs2 where
      "w' = w1 @ qs2" "list_all (\<lambda>q. \<exists>n fn c. q = FormFile n fn c) qs2" by blast
    with q1 have "w' = w @ (qs1 @ qs2) \<and> list_all (\<lambda>q. \<exists>n fn c. q = FormFile n fn c) (qs1 @ qs2)"
      by simp
    then show ?thesis by blast
  next
    case (Some e)
    with a Cons.prems q1 show ?thesis by auto
  qed
qed

text \<open>What a returned body holds.\<close>

lemma GetMultipartBody_body:
  assumes "GetMultipartBody env (Some (VStruct fs)) files s
             = (Return (Some (Multipart ps c), opts, err), s')"
  shows "\<exists>qs. field_loop env files fs []
                 = Return (Inr (map (field_part env) (filter (\<lambda>f. \<not> skipped files f) fs)))
          \<and> ps = map (field_part env) (filter (\<lambda>f. \<not> skipped files f) fs) @ qs
          \<and> list_all (\<lambda>q. \<exists>n fn c. q = FormFile n fn c) qs
          \<and> (files = [] \<longrightarrow> qs = [])"
proof -
  from assms obtain w r where
    fl: "field_loop env files fs [] = Return (Inr w)" and
    fi: "file_loop env files w s = (r, ps, s')"
    by (auto simp: GetMultipartBody_def
        split: outcome.splits sum.splits prod.splits option.splits)
  from field_loop_Inr[OF fl]
  have w: "w = map (field_part env) (filter (\<lambda>f. \<not> skipped files f) fs)" by simp
  from file_loop_parts[OF fi] obtain qs where
    qs: "ps = w @ qs" "list_all (\<lambda>q. \<exists>n fn c. q = FormFile n fn c) qs" by blast
  have "files = [] \<longrightarrow> qs = []" using fi qs(1) by auto
  with fl w qs show ?thesis by auto
qed

text \<open>A skipped field leaves no trace.\<close>

lemma field_loop_drop_skipped:
  "skipped files f \<Longrightarrow>
     field_loop env files (fs1 @ f # fs2) w = field_loop env files (fs1 @ fs2) w"
  by (simp add: field_loop_append field_step_skipped
      split: outcome.splits sum.splits)

lemma GetMultipartBody_drop_skipped:
  "skipped files f \<Longrightarrow>
     GetMultipartBody env (Some (VStruct (fs1 @ f # fs2))) files s
       = GetMultipartBody env (Some (VStruct (fs1 @ fs2))) files s"
  by (simp add: GetMultipartBody_def field_loop_drop_skipped)

lemma skipped_by_file:
  assumes "fl \<in> set files" and "Name fl = wire_name f"
  shows "skipped files f"
proof -
  from assms have "wire_name f \<in> Name ` set files" by force
  then show ?thesis
    by (simp add: skipped_def skip_field_def name_in_files_iff)
qed

lemma skipped_by_omitempty:
  "omit_marked f \<Longrightarrow> Value_IsZero (field_Val f) \<Longrightarrow> skipped files f"
  by (simp add: skipped_def skip_field_def omit_marked_def)

lemma skipped_no_files:
  "skipped [] f \<longleftrightarrow> omit_marked f \<and> Value_IsZero (field_Val f)"
  by (simp add: skipped_def skip_field_def omit_marked_def)

lemma GetMultipartBody_some_body:
  "GetMultipartBody env msg files s = (Return (Some body, opts, err), s') \<Longrightarrow>
     \<exists>fs ps c. msg = Some (VStruct fs) \<and> body = Multipart ps c"
  by (auto simp: GetMultipartBody_def
      split: option.splits gvalue.splits outcome.splits sum.splits prod.splits)

lemma attach_file_calls:
  "attach_file env fl w s = (r, w', s') \<Longrightarrow>
     open_calls s' = open_calls s @ [Path fl]
     \<and> (\<forall>e. os_Open env (Path fl) = Inl e \<longrightarrow> r = Some e)"
  by (auto simp: attach_file_def Let_def split: sum.splits option.splits prod.splits)

lemma file_loop_calls:
  "file_loop env files w s = (r, w', s') \<Longrightarrow>
     \<exists>cs. open_calls s' = open_calls s @ cs
          \<and> (r = None \<longrightarrow> cs = map Path files)
          \<and> (\<forall>p e. p \<in> set cs \<and> os_Open env p = Inl e \<longrightarrow>
                r = Some e \<and> last cs = p \<and> p \<notin> set (butlast cs))"
proof (induction files arbitrary: w s)
  case Nil
  then show ?case by simp
next
  case (Cons fl fls)
  obtain r1 w1 s1 where a: "attach_file env fl w s = (r1, w1, s1)"
    by (cases "attach_file env fl w s") auto
  note ac = attach_file_calls[OF a]
  show ?case
  proof (cases r1)
    case (Some e1)
    with a Cons.prems have "r = Some e1" "s' = s1" by auto
    with ac Some have "open_calls s' = open_calls s @ [Path fl]
          \<and> (r = None \<longrightarrow> [Path fl] = map Path (fl # fls))
          \<and> (\<forall>p e. p \<in> set [Path fl] \<and> os_Open env p = Inl e \<longrightarrow>
                r = Some e \<and> last [Path fl] = p \<and> p \<notin> set (butlast [Path fl]))"
      by auto
    then show ?thesis by (rule exI[where x = "[Path fl]"])
  next
    case None
    with ac have ok: "\<forall>e. os_Open env (Path fl) \<noteq> Inl e" by auto
    from None a Cons.prems have "file_loop env fls w1 s1 = (r, w', s')" by simp
    from Cons.IH[OF this] obtain cs where
      cs: "open_calls s' = open_calls s1 @ cs" "r = None \<longrightarrow> cs = map Path fls"
        "\<forall>p e. p \<in> set cs \<and> os_Open env p = Inl e \<longrightarrow>
                r = Some e \<and> last cs = p \<and> p \<notin> set (butlast cs)"
      by blast
    have "\<forall>p e. p \<in> set (Path fl # cs) \<and> os_Open env p = Inl e \<longrightarrow>
                r = Some e \<and> last (Path fl # cs) = p \<and> p \<notin> set (butlast (Path fl # cs))"
    proof (intro allI impI)
      fix p e
      assume pe: "p \<in> set (Path fl # cs) \<and> os_Open env p = Inl e"
      with ok have ne: "p \<noteq> Path fl" by auto
      with pe have "p \<in> set cs" by simp
      with pe cs(3) have "r = Some e" "last cs = p" "p \<notin> set (butlast cs)" by blast+
      moreover from \<open>p \<in> set cs\<close> have "cs \<noteq> []" by auto
      ultimately show "r = Some e \<and> last (Path fl # cs) = p \<and> p \<notin> set (butlast (Path fl # cs))"
        using ne by simp
    qed
    with cs(1,2) ac have "open_calls s' = open_calls s @ (Path fl # cs)
          \<and> (r = None \<longrightarrow> Path fl # cs = map Path (fl # fls))
          \<and> (\<forall>p e. p \<in> set (Path fl # cs) \<and> os_Open env p = Inl e \<longrightarrow>
                r = Some e \<and> last (Path fl # cs) = p \<and> p \<notin> set (butlast (Path fl # cs)))"
      by simp
    then show ?thesis by (rule exI[where x = "Path fl # cs"])
  qed
qed

lemma field_loop_split_body:
  assumes "GetMultipartBody env (Some (VStruct (fs1 @ f # fs2))) files s
             = (Return (Some (Multipart ps c), opts, err), s')"
    and "\<not> skipped files f"
  shows "\<exists>qs. ps = map (field_part env) (filter (\<lambda>g. \<not> skipped files g) fs1)
                @ field_part env f
                # map (field_part env) (filter (\<lambda>g. \<not> skipped files g) fs2) @ qs
            \<and> list_all (\<lambda>q. \<exists>n fn c. q = FormFile n fn c) qs
            \<and> PkgPath f = []
            \<and> (composite f \<longrightarrow> (\<exists>js. json_Marshal env (iface_of f) = Return (Inr js)))
            \<and> (\<not> composite f \<longrightarrow> (\<exists>val. fmt_Sprint env (iface_of f) = Return val))"
proof -
  from GetMultipartBody_body[OF assms(1)] obtain qs where
    fl: "field_loop env files (fs1 @ f # fs2) []
           = Return (Inr (map (field_part env) (filter (\<lambda>f. \<not> skipped files f) (fs1 @ f # fs2))))"
    and ps: "ps = map (field_part env) (filter (\<lambda>f. \<not> skipped files f) (fs1 @ f # fs2)) @ qs"
    and qs: "list_all (\<lambda>q. \<exists>n fn c. q = FormFile n fn c) qs"
    by blast
  from field_loop_Inr_ok[OF fl, of f] assms(2)
  have "PkgPath f = []
     \<and> (composite f \<longrightarrow> (\<exists>js. json_Marshal env (iface_of f) = Return (Inr js)))
     \<and> (\<not> composite f \<longrightarrow> (\<exists>val. fmt_Sprint env (iface_of f) = Return val))"
    by simp
  with ps qs assms(2) show ?thesis by simp
qed

section \<open>The claims\<close>

subsection \<open>C1: a file replaces the field of the same name\<close>

text \<open>
  C1: if some attachment's \<open>Name\<close> equals the resolved wire name of a field, the field
  is never emitted as a form field, whatever its value and its omit-if-empty marker.
  The call on the record equals the call on the record without that field (so the field
  contributes nothing: no part, no error, no panic), and a body the call returns holds
  no form field of that name at all.
\<close>

theorem file_replaces_field:
  assumes "fl \<in> set files" and "Name fl = wire_name f"
  shows "GetMultipartBody env (Some (VStruct (fs1 @ f # fs2))) files s
           = GetMultipartBody env (Some (VStruct (fs1 @ fs2))) files s
       \<and> (\<forall>ps c opts err s' v.
             GetMultipartBody env (Some (VStruct (fs1 @ f # fs2))) files s
               = (Return (Some (Multipart ps c), opts, err), s')
             \<longrightarrow> FormField (wire_name f) v \<notin> set ps)"
proof -
  have eq: "GetMultipartBody env (Some (VStruct (fs1 @ f # fs2))) files s
           = GetMultipartBody env (Some (VStruct (fs1 @ fs2))) files s"
    using skipped_by_file[OF assms] by (rule GetMultipartBody_drop_skipped)
  have "FormField (wire_name f) v \<notin> set ps"
    if "GetMultipartBody env (Some (VStruct (fs1 @ f # fs2))) files s
               = (Return (Some (Multipart ps c), opts, err), s')" for ps c opts err s' v
  proof
    assume mem: "FormField (wire_name f) v \<in> set ps"
    define kept where "kept = filter (\<lambda>g. \<not> skipped files g) (fs1 @ f # fs2)"
    from GetMultipartBody_body[OF that] obtain qs where
      ps: "ps = map (field_part env) kept @ qs"
      and qs: "list_all (\<lambda>q. \<exists>n fn c. q = FormFile n fn c) qs"
      unfolding kept_def by blast
    from qs have "FormField (wire_name f) v \<notin> set qs" by (auto simp: list_all_iff)
    with mem have "FormField (wire_name f) v \<in> field_part env ` set kept"
      unfolding ps by simp
    then obtain g where g: "g \<in> set kept" "field_part env g = FormField (wire_name f) v"
      by force
    from g(1) have ns: "\<not> skipped files g" by (simp add: kept_def del: filter.simps filter_append)
    from g(2) have "wire_name g = wire_name f" by (simp add: field_part_def)
    with assms have "skipped files g" by (intro skipped_by_file[of fl]) auto
    with ns show False by simp
  qed
  with eq show ?thesis by blast
qed

theorem file_replaces_field_witness:
  "sample_photo \<in> set [sample_photo]
   \<and> Name sample_photo = wire_name photo_field
   \<and> GetMultipartBody sample_env (Some (VStruct ([chat_field] @ photo_field # [caption_field])))
        [sample_photo] no_handles
     = (Return (Some (Multipart [FormField ''chat_id'' ''123'',
                                 FormFile ''photo'' ''a.jpg'' ''JFIF''] True),
                \<lparr>ContentType = ''multipart/form-data; boundary=5c1e''\<rparr>, None),
        \<lparr>open_handles = [], open_calls = [''/tmp/a.jpg'']\<rparr>)
   \<and> (\<forall>v. FormField ''photo'' v
          \<notin> set [FormField ''chat_id'' ''123'', FormFile ''photo'' ''a.jpg'' ''JFIF''])"
  using file_replaces_field[of sample_photo "[sample_photo]" photo_field sample_env
      "[chat_field]" "[caption_field]" no_handles]
  by (simp add: eval_defs rule_defs photo_field_def)

subsection \<open>C2: what accompanies an error\<close>




subsection \<open>C3: panics\<close>

text \<open>
  C3, as stated, says that no caller-supplied value makes \<open>GetMultipartBody\<close> panic,
  a \<open>msg\<close> that is not a struct included. The code has no guard and no \<open>recover\<close>:
  on a string \<open>NumField\<close> panics, and on a struct with a field that is not exported
  (and not skipped) \<open>Interface\<close> panics.
\<close>

theorem reflect_panics:
  "GetMultipartBody sample_env (Some (VString ''hello'')) [] no_handles
     = (Panic NumField_of_non_struct, no_handles)
   \<and> GetMultipartBody sample_env (Some (VStruct [secret_field])) [] no_handles
     = (Panic Interface_of_unexported_field, no_handles)"
  by (simp add: eval_defs secret_field_def)

text \<open>
  C3, amended: for every struct in which each field that is not skipped is exported
  and is a value on which the library call made for it returns (\<open>json.Marshal\<close> for a
  struct, map, array or slice, \<open>fmt.Sprintf\<close> for any other kind; neither panics nor
  ends the process on it), \<open>GetMultipartBody\<close> does not panic: it returns, and every
  failure is communicated through the returned error, a nil error coming with the
  finished multipart body.
\<close>

theorem struct_with_exported_fields_no_panic:
  assumes "\<forall>f \<in> set fs. skipped files f \<or> (PkgPath f = [] \<and> library_returns env f)"
  shows "\<exists>r opts err s'.
           GetMultipartBody env (Some (VStruct fs)) files s = (Return (r, opts, err), s')
           \<and> (err = None \<longrightarrow> (\<exists>ps. r = Some (Multipart ps True)))"
proof -
  from field_loop_no_panic[OF assms] obtain x where
    x: "field_loop env files fs [] = Return x" by blast
  show ?thesis
  proof (cases x)
    case (Inl e)
    with x show ?thesis by (simp add: GetMultipartBody_def)
  next
    case (Inr w)
    obtain r w' s' where "file_loop env files w s = (r, w', s')"
      by (cases "file_loop env files w s") auto
    with x Inr show ?thesis
      by (cases r; cases "Close_err env w'") (simp_all add: GetMultipartBody_def)
  qed
qed

theorem struct_with_exported_fields_no_panic_witness:
  "GetMultipartBody sample_env (Some (VStruct [chat_field, caption_field]))
        [missing_photo] no_handles
     = (Return (None, \<lparr>ContentType = []\<rparr>, Some (PathError ''open'' ''/tmp/gone.jpg'')),
        \<lparr>open_handles = [], open_calls = [''/tmp/gone.jpg'']\<rparr>)
   \<and> list_all (\<lambda>f. skipped [missing_photo] f \<or> (PkgPath f = [] \<and> library_returns sample_env f))
        [chat_field, caption_field]"
  using struct_with_exported_fields_no_panic[of "[chat_field, caption_field]"
      "[missing_photo]" sample_env no_handles]
  by (simp add: eval_defs rule_defs library_returns_def)

subsection \<open>C4: one form field per record field\<close>

text \<open>
  C4: for a record with no omit-marked empty field, called with no attachment, the body
  \<open>GetMultipartBody\<close> returns holds exactly one form field per record field, in
  declaration order, each named by the wire-name rule (the first comma-separated segment
  of the json tag when it is not empty, otherwise the identifier); the call does
  return that body, finished and with no error, when every field is exported, every
  composite field serializes to JSON, \<open>fmt.Sprintf\<close> returns for every other field
  and the writer does not fail; and the name the
  code computes for a field, \<open>coalesce(strings.Split(tag, ",")[0], Name)\<close>, is the one
  the rule gives.
\<close>

theorem one_form_field_per_field:
  assumes "\<forall>f \<in> set fs. \<not> (omit_marked f \<and> Value_IsZero (field_Val f))"
  shows "(\<forall>ps c opts err s'.
            GetMultipartBody env (Some (VStruct fs)) [] s
              = (Return (Some (Multipart ps c), opts, err), s')
            \<longrightarrow> ps = map (\<lambda>f. FormField (wire_name f) (field_text env f)) fs)
       \<and> ((\<forall>f \<in> set fs. PkgPath f = []
                \<and> (composite f \<longrightarrow>
                     (\<exists>js. json_Marshal env (Some (field_Val f)) = Return (Inr js)))
                \<and> (\<not> composite f \<longrightarrow>
                     (\<exists>val. fmt_Sprint env (iface_of f) = Return val)))
            \<and> (\<forall>w n v. WriteField_err env w n v = None)
            \<and> (\<forall>w. Close_err env w = None)
          \<longrightarrow> GetMultipartBody env (Some (VStruct fs)) [] s
                = (Return (Some (Multipart (map (\<lambda>f. FormField (wire_name f) (field_text env f)) fs) True),
                           \<lparr>ContentType = FormDataContentType env\<rparr>, None), s))
       \<and> (\<forall>f. fieldName_of f = Return (wire_name f))"
proof -
  have keep: "filter (\<lambda>f. \<not> skipped [] f) fs = fs"
    using assms by (simp add: skipped_no_files)
  have fp: "map (field_part env) fs = map (\<lambda>f. FormField (wire_name f) (field_text env f)) fs"
    by (simp add: field_part_def)
  have one: "ps = map (\<lambda>f. FormField (wire_name f) (field_text env f)) fs"
    if "GetMultipartBody env (Some (VStruct fs)) [] s
          = (Return (Some (Multipart ps c), opts, err), s')" for ps c opts err s'
    using GetMultipartBody_body[OF that] keep fp by auto
  have two: "GetMultipartBody env (Some (VStruct fs)) [] s
                = (Return (Some (Multipart (map (\<lambda>f. FormField (wire_name f) (field_text env f)) fs) True),
                           \<lparr>ContentType = FormDataContentType env\<rparr>, None), s)"
    if ok: "\<forall>f \<in> set fs. PkgPath f = []
                \<and> (composite f \<longrightarrow>
                     (\<exists>js. json_Marshal env (Some (field_Val f)) = Return (Inr js)))
                \<and> (\<not> composite f \<longrightarrow>
                     (\<exists>val. fmt_Sprint env (iface_of f) = Return val))"
      and wf: "\<forall>w n v. WriteField_err env w n v = None"
      and cl: "\<forall>w. Close_err env w = None"
  proof -
    from ok have "\<forall>f \<in> set fs. \<not> skipped [] f \<longrightarrow>
             PkgPath f = []
             \<and> (composite f \<longrightarrow> (\<exists>js. json_Marshal env (iface_of f) = Return (Inr js)))
             \<and> (\<not> composite f \<longrightarrow> (\<exists>val. fmt_Sprint env (iface_of f) = Return val))"
      by (auto simp: composite_iface_of)
    from field_loop_ok[OF this wf, of "[]"] keep fp cl show ?thesis
      by (simp add: GetMultipartBody_def)
  qed
  from one two fieldName_of_wire_name show ?thesis by blast
qed

theorem one_form_field_per_field_witness:
  "list_all (\<lambda>f. \<not> (omit_marked f \<and> Value_IsZero (field_Val f)))
      [chat_field, silent_field, tags_field]
   \<and> GetMultipartBody sample_env (Some (VStruct [chat_field, silent_field, tags_field]))
        [] no_handles
     = (Return (Some (Multipart [FormField ''chat_id'' ''123'',
                                 FormField ''disable_notification'' ''true'',
                                 FormField ''Tags'' ''[]''] True),
                \<lparr>ContentType = ''multipart/form-data; boundary=5c1e''\<rparr>, None),
        no_handles)
   \<and> map (\<lambda>f. FormField (wire_name f) (field_text sample_env f))
        [chat_field, silent_field, tags_field]
     = [FormField ''chat_id'' ''123'', FormField ''disable_notification'' ''true'',
        FormField ''Tags'' ''[]'']"
  using one_form_field_per_field[of "[chat_field, silent_field, tags_field]"
      sample_env no_handles]
  by (simp add: eval_defs rule_defs silent_field_def tags_field_def)

subsection \<open>C5: omitted empty fields\<close>

text \<open>
  C5: a field marked omit-if-empty whose value is the zero value of its type gets no
  form field (whether or not an attachment shares its name): the call on the record
  equals the call on the record without that field, and the form fields of a returned
  body are those of the other fields that are not skipped, followed by file parts only.
\<close>

theorem omitted_empty_field_absent:
  assumes "omit_marked f" and "Value_IsZero (field_Val f)"
  shows "GetMultipartBody env (Some (VStruct (fs1 @ f # fs2))) files s
           = GetMultipartBody env (Some (VStruct (fs1 @ fs2))) files s
       \<and> (\<forall>ps c opts err s'.
             GetMultipartBody env (Some (VStruct (fs1 @ f # fs2))) files s
               = (Return (Some (Multipart ps c), opts, err), s')
             \<longrightarrow> (\<exists>qs. ps = map (field_part env) (filter (\<lambda>g. \<not> skipped files g) (fs1 @ fs2)) @ qs
                       \<and> list_all (\<lambda>q. \<exists>n fn c. q = FormFile n fn c) qs))"
proof -
  have sk: "skipped files f" using assms by (rule skipped_by_omitempty)
  have eq: "GetMultipartBody env (Some (VStruct (fs1 @ f # fs2))) files s
           = GetMultipartBody env (Some (VStruct (fs1 @ fs2))) files s"
    using sk by (rule GetMultipartBody_drop_skipped)
  have "\<exists>qs. ps = map (field_part env) (filter (\<lambda>g. \<not> skipped files g) (fs1 @ fs2)) @ qs
                       \<and> list_all (\<lambda>q. \<exists>n fn c. q = FormFile n fn c) qs"
    if "GetMultipartBody env (Some (VStruct (fs1 @ f # fs2))) files s
               = (Return (Some (Multipart ps c), opts, err), s')" for ps c opts err s'
    using GetMultipartBody_body[OF that[unfolded eq]] by blast
  with eq show ?thesis by blast
qed

theorem omitted_empty_field_absent_witness:
  "omit_marked caption_field
   \<and> Value_IsZero (field_Val caption_field)
   \<and> GetMultipartBody sample_env (Some (VStruct ([chat_field] @ caption_field # []))) []
        no_handles
     = GetMultipartBody sample_env (Some (VStruct ([chat_field] @ []))) [] no_handles
   \<and> GetMultipartBody sample_env (Some (VStruct ([chat_field] @ caption_field # []))) []
        no_handles
     = (Return (Some (Multipart [FormField ''chat_id'' ''123''] True),
                \<lparr>ContentType = ''multipart/form-data; boundary=5c1e''\<rparr>, None),
        no_handles)"
  using omitted_empty_field_absent[of caption_field sample_env "[chat_field]" "[]" "[]"
      no_handles]
  by (simp add: eval_defs rule_defs)

subsection \<open>C6: composite fields as JSON\<close>

text \<open>
  C6: a field of kind struct, map, array or slice that is not skipped appears in the
  returned body as exactly one form field, at its place among the fields that are
  written, whose value is the JSON encoding of the field's value; and if the JSON
  serialization of such a field fails, no body is returned, and once the fields before
  it are processed the call returns the nil stream, the zero options and that error.
\<close>

theorem composite_field_as_json:
  assumes "Value_Kind (field_Val f) \<in> {KStruct, KMap, KArray, KSlice}"
    and "\<not> skipped files f"
  shows "(\<forall>ps c opts err s'.
            GetMultipartBody env (Some (VStruct (fs1 @ f # fs2))) files s
              = (Return (Some (Multipart ps c), opts, err), s') \<longrightarrow>
            (\<exists>js qs. json_Marshal env (Some (field_Val f)) = Return (Inr js)
               \<and> ps = map (field_part env) (filter (\<lambda>g. \<not> skipped files g) fs1)
                      @ FormField (wire_name f) js
                      # map (field_part env) (filter (\<lambda>g. \<not> skipped files g) fs2) @ qs
               \<and> list_all (\<lambda>q. \<exists>n fn c. q = FormFile n fn c) qs))
       \<and> (\<forall>e. json_Marshal env (Some (field_Val f)) = Return (Inl e) \<longrightarrow>
            (\<forall>body opts err s'.
               GetMultipartBody env (Some (VStruct (fs1 @ f # fs2))) files s
                 \<noteq> (Return (Some body, opts, err), s'))
            \<and> (\<forall>w. field_loop env files fs1 [] = Return (Inr w) \<and> PkgPath f = [] \<longrightarrow>
                  GetMultipartBody env (Some (VStruct (fs1 @ f # fs2))) files s
                    = (Return (None, \<lparr>ContentType = []\<rparr>, Some e), s)))"
proof -
  from assms(1) have comp: "composite f" by (simp add: composite_def)
  then have io: "iface_of f = Some (field_Val f)" by (rule composite_iface_of)
  have one: "\<exists>js qs. json_Marshal env (Some (field_Val f)) = Return (Inr js)
               \<and> ps = map (field_part env) (filter (\<lambda>g. \<not> skipped files g) fs1)
                      @ FormField (wire_name f) js
                      # map (field_part env) (filter (\<lambda>g. \<not> skipped files g) fs2) @ qs
               \<and> list_all (\<lambda>q. \<exists>n fn c. q = FormFile n fn c) qs"
    if "GetMultipartBody env (Some (VStruct (fs1 @ f # fs2))) files s
              = (Return (Some (Multipart ps c), opts, err), s')" for ps c opts err s'
  proof -
    from field_loop_split_body[OF that assms(2)] comp io obtain qs js where
      "ps = map (field_part env) (filter (\<lambda>g. \<not> skipped files g) fs1)
                @ field_part env f
                # map (field_part env) (filter (\<lambda>g. \<not> skipped files g) fs2) @ qs"
      "list_all (\<lambda>q. \<exists>n fn c. q = FormFile n fn c) qs"
      "json_Marshal env (Some (field_Val f)) = Return (Inr js)"
      by auto
    moreover from this(3) comp io have "field_part env f = FormField (wire_name f) js"
      by (simp add: field_part_def field_text_def)
    ultimately show ?thesis by auto
  qed
  have two: "GetMultipartBody env (Some (VStruct (fs1 @ f # fs2))) files s
                 \<noteq> (Return (Some body, opts, err), s')"
    if "json_Marshal env (Some (field_Val f)) = Return (Inl e)" for e body opts err s'
  proof
    assume r: "GetMultipartBody env (Some (VStruct (fs1 @ f # fs2))) files s
                 = (Return (Some body, opts, err), s')"
    from GetMultipartBody_some_body[OF r] obtain ps c where "body = Multipart ps c" by blast
    with r one[of ps c opts err s'] that show False by auto
  qed
  have three: "GetMultipartBody env (Some (VStruct (fs1 @ f # fs2))) files s
                    = (Return (None, \<lparr>ContentType = []\<rparr>, Some e), s)"
    if "json_Marshal env (Some (field_Val f)) = Return (Inl e)"
      "field_loop env files fs1 [] = Return (Inr w)" "PkgPath f = []" for e w
  proof -
    have "field_step env files f w = Return (Inl e)"
      using that(1,3) assms io
      by (simp add: field_step_def fieldName_of_wire_name skipped_def Field_Interface_def
          iface_of_def)
    with that(2) have "field_loop env files (fs1 @ f # fs2) [] = Return (Inl e)"
      by (simp add: field_loop_append)
    then show ?thesis by (simp add: GetMultipartBody_def)
  qed
  from one two three show ?thesis by blast
qed

theorem composite_field_as_json_witness:
  "Value_Kind (field_Val tags_field) \<in> {KStruct, KMap, KArray, KSlice}
   \<and> \<not> skipped [] tags_field
   \<and> json_Marshal sample_env (Some (field_Val tags_field)) = Return (Inr ''[]'')
   \<and> GetMultipartBody sample_env
        (Some (VStruct ([chat_field] @ tags_field # [silent_field]))) [] no_handles
     = (Return (Some (Multipart [FormField ''chat_id'' ''123'', FormField ''Tags'' ''[]'',
                                 FormField ''disable_notification'' ''true''] True),
                \<lparr>ContentType = ''multipart/form-data; boundary=5c1e''\<rparr>, None),
        no_handles)
   \<and> Value_Kind (field_Val events_field) \<in> {KStruct, KMap, KArray, KSlice}
   \<and> \<not> skipped [] events_field
   \<and> json_Marshal sample_env (Some (field_Val events_field))
     = Return (Inl (UnsupportedTypeError ''chan''))
   \<and> field_loop sample_env [] [chat_field] [] = Return (Inr [FormField ''chat_id'' ''123''])
   \<and> GetMultipartBody sample_env
        (Some (VStruct ([chat_field] @ events_field # [silent_field]))) [] no_handles
     = (Return (None, \<lparr>ContentType = []\<rparr>, Some (UnsupportedTypeError ''chan'')),
        no_handles)"
  using composite_field_as_json[of tags_field "[]" sample_env "[chat_field]"
      "[silent_field]" no_handles]
    composite_field_as_json[of events_field "[]" sample_env "[chat_field]"
      "[silent_field]" no_handles]
  by (simp add: eval_defs rule_defs silent_field_def tags_field_def events_field_def)

subsection \<open>C7: a file that cannot be opened\<close>

text \<open>
  C7: if opening the file of some attachment fails, no body is returned; and when the
  call reaches an \<open>os.Open\<close> that fails, it returns at once the nil stream, the zero
  options and the error of \<open>os.Open\<close>: the failed path is the last one the call
  opens, so no further attachment is processed.
\<close>

theorem open_failure_aborts:
  assumes "GetMultipartBody env msg files s = (out, s')"
  shows "(\<forall>fl e. fl \<in> set files \<and> os_Open env (Path fl) = Inl e \<longrightarrow>
            (\<forall>body opts err. out \<noteq> Return (Some body, opts, err)))
       \<and> (\<exists>cs. open_calls s' = open_calls s @ cs
             \<and> (\<forall>p e. p \<in> set cs \<and> os_Open env p = Inl e \<longrightarrow>
                   out = Return (None, \<lparr>ContentType = []\<rparr>, Some e)
                   \<and> last cs = p \<and> p \<notin> set (butlast cs)))"
proof (cases "\<exists>fs w. msg = Some (VStruct fs) \<and> field_loop env files fs [] = Return (Inr w)")
  case False
  with assms have "s' = s" "\<forall>body opts err. out \<noteq> Return (Some body, opts, err)"
    by (auto simp: GetMultipartBody_def
        split: option.splits gvalue.splits outcome.splits sum.splits)
  then have "(\<forall>fl e. fl \<in> set files \<and> os_Open env (Path fl) = Inl e \<longrightarrow>
            (\<forall>body opts err. out \<noteq> Return (Some body, opts, err)))
       \<and> open_calls s' = open_calls s @ []
             \<and> (\<forall>p e. p \<in> set [] \<and> os_Open env p = Inl e \<longrightarrow>
                   out = Return (None, \<lparr>ContentType = []\<rparr>, Some e)
                   \<and> last [] = p \<and> p \<notin> set (butlast []))"
    by simp
  then show ?thesis by (intro conjI exI[where x = "[]"]) simp_all
next
  case True
  then obtain fs w where m: "msg = Some (VStruct fs)"
    and fl: "field_loop env files fs [] = Return (Inr w)" by blast
  obtain r w' s1 where fi: "file_loop env files w s = (r, w', s1)"
    by (cases "file_loop env files w s") auto
  from file_loop_calls[OF fi] obtain cs where
    cs: "open_calls s1 = open_calls s @ cs" "r = None \<longrightarrow> cs = map Path files"
      "\<forall>p e. p \<in> set cs \<and> os_Open env p = Inl e \<longrightarrow>
                r = Some e \<and> last cs = p \<and> p \<notin> set (butlast cs)"
    by blast
  from assms m fl fi have s': "s' = s1"
    and out_err: "\<And>e. r = Some e \<Longrightarrow> out = Return (None, \<lparr>ContentType = []\<rparr>, Some e)"
    and out_ok: "r = None \<Longrightarrow> \<exists>c err. out = Return (Some (Multipart w' c),
                     \<lparr>ContentType = FormDataContentType env\<rparr>, err)"
    by (auto simp: GetMultipartBody_def split: option.splits)
  have nobody: "\<forall>body opts err. out \<noteq> Return (Some body, opts, err)"
    if "fl \<in> set files" "os_Open env (Path fl) = Inl e" for fl e
  proof (cases r)
    case None
    with cs(2) that(1) have "Path fl \<in> set cs" by auto
    with cs(3) that(2) None show ?thesis by auto
  next
    case (Some e1)
    from out_err[OF this] show ?thesis by simp
  qed
  have "\<forall>p e. p \<in> set cs \<and> os_Open env p = Inl e \<longrightarrow>
                   out = Return (None, \<lparr>ContentType = []\<rparr>, Some e)
                   \<and> last cs = p \<and> p \<notin> set (butlast cs)"
    using cs(3) out_err by blast
  with nobody cs(1) s' show ?thesis by blast
qed

theorem open_failure_aborts_witness:
  "GetMultipartBody sample_env sample_msg [sample_photo, missing_photo, sample_photo]
      no_handles
     = (Return (None, \<lparr>ContentType = []\<rparr>, Some (PathError ''open'' ''/tmp/gone.jpg'')),
        \<lparr>open_handles = [], open_calls = [''/tmp/a.jpg'', ''/tmp/gone.jpg'']\<rparr>)
   \<and> missing_photo \<in> set [sample_photo, missing_photo, sample_photo]
   \<and> os_Open sample_env (Path missing_photo) = Inl (PathError ''open'' ''/tmp/gone.jpg'')"
  using open_failure_aborts[of sample_env sample_msg
      "[sample_photo, missing_photo, sample_photo]" no_handles
      "Return (None, \<lparr>ContentType = []\<rparr>, Some (PathError ''open'' ''/tmp/gone.jpg''))"
      "\<lparr>open_handles = [], open_calls = [''/tmp/a.jpg'', ''/tmp/gone.jpg'']\<rparr>"]
  by (simp add: eval_defs)

subsection \<open>C8: coalesce\<close>

text \<open>
  C8: \<open>coalesce\<close> is to return the first argument that is not the zero value, for
  every list of arguments. The code breaks this at an interface type: in
  \<open>coalesce[any](nil, "fallback")\<close> the first argument is the zero value and the
  second is not, so the result is to be \<open>"fallback"\<close>; the code hands the nil
  interface to \<open>reflect.ValueOf\<close>, which gives the zero \<open>Value\<close>, and \<open>IsZero\<close>
  panics on it. A nil argument that is alone or last is returned unharmed, by the test
  \<open>len(value) == 1\<close>.
\<close>

theorem coalesce_nil_interface_panics:
  "coalesce id None [None, Some (VString ''fallback'')] = Panic IsZero_of_zero_Value
   \<and> coalesce id None [None] = Return None
   \<and> coalesce id None [Some (VString []), None] = Return None"
  by simp

text \<open>
  Away from the nil interface the code does what C8 says. For arguments that convert
  to a non-nil interface value and on which \<open>IsZero\<close> holds of the zero value only
  (every type that is not an interface type; the code uses \<open>string\<close>), \<open>coalesce\<close>
  returns the first argument that is not the zero value, and the zero value when there
  is none. With no argument it returns the zero value, for every type and without a
  panic, and \<open>coalesce("", "fallback")\<close> is \<open>"fallback"\<close>. The function is total: the
  recursion is on the argument list.
\<close>

lemma coalesce_first_non_zero:
  "((\<forall>x \<in> set xs. \<exists>r. to_any x = Some r \<and> (Value_IsZero r \<longleftrightarrow> x = zero)) \<longrightarrow>
      coalesce to_any zero xs =
        Return (case find (\<lambda>x. x \<noteq> zero) xs of Some x \<Rightarrow> x | None \<Rightarrow> zero))
   \<and> coalesce to_any zero [] = Return zero
   \<and> coalesce string_to_any [] ['''', ''fallback''] = Return ''fallback''"
  using coalesce_find[of xs to_any zero] by (simp add: string_to_any_def)

subsection \<open>C9: the file handle is closed\<close>

text \<open>
  C9: the handle opened for an attachment is closed on every way out of that
  attachment's processing (an open that fails leaves none, and after a failed part
  creation, a failed copy or a success the deferred close has run): the handles open
  after processing one attachment are those open before it, and so are the handles
  open after the whole call, whatever its outcome.
\<close>

theorem file_handles_closed:
  "open_handles (snd (snd (attach_file env fl w s))) = open_handles s
   \<and> open_handles (snd (GetMultipartBody env msg files s)) = open_handles s"
proof -
  have one: "open_handles (snd (snd (attach_file env fl w s))) = open_handles s"
    using attach_file_handles[of env fl w s] by (cases "attach_file env fl w s") auto
  have "open_handles (snd (GetMultipartBody env msg files s)) = open_handles s"
    by (auto simp: GetMultipartBody_def dest: file_loop_handles
        split: option.splits gvalue.splits outcome.splits sum.splits prod.splits)
  with one show ?thesis by simp
qed

theorem file_handles_closed_witness:
  "attach_file (sample_env\<lparr>os_Open := (\<lambda>p. Inr (File ''JF'' (Some (IOError ''unexpected EOF''))))\<rparr>)
      sample_photo [] \<lparr>open_handles = [''/var/log/bot.log''], open_calls = []\<rparr>
     = (Some (IOError ''unexpected EOF''), [FormFile ''photo'' ''a.jpg'' ''JF''],
        \<lparr>open_handles = [''/var/log/bot.log''], open_calls = [''/tmp/a.jpg'']\<rparr>)
   \<and> snd (GetMultipartBody sample_env sample_msg [sample_photo]
        \<lparr>open_handles = [''/var/log/bot.log''], open_calls = []\<rparr>)
     = \<lparr>open_handles = [''/var/log/bot.log''], open_calls = [''/tmp/a.jpg'']\<rparr>"
  using file_handles_closed[of
      "sample_env\<lparr>os_Open := (\<lambda>p. Inr (File ''JF'' (Some (IOError ''unexpected EOF''))))\<rparr>"
      sample_photo "[]" "\<lparr>open_handles = [''/var/log/bot.log''], open_calls = []\<rparr>"
      sample_msg "[sample_photo]"]
  by (simp add: eval_defs)

subsection \<open>C10: every other kind is rendered by fmt\<close>

text \<open>
  C10: only the kinds struct, map, array and slice take the JSON path. A field of any
  other kind that is not skipped appears in the returned body as the form field whose
  value is its \<open>%v\<close> rendering, and what the loop does for it does not depend on
  \<open>json.Marshal\<close> at all; a field holding a pointer, to a nested record or to anything
  else, is of such a kind.
\<close>

theorem other_kinds_rendered_by_Sprint:
  assumes "Value_Kind (field_Val f) \<notin> {KStruct, KMap, KArray, KSlice}"
    and "\<not> skipped files f"
  shows "(\<forall>ps c opts err s'.
            GetMultipartBody env (Some (VStruct (fs1 @ f # fs2))) files s
              = (Return (Some (Multipart ps c), opts, err), s') \<longrightarrow>
            (\<exists>val qs. fmt_Sprint env (iface_of f) = Return val
               \<and> ps = map (field_part env) (filter (\<lambda>g. \<not> skipped files g) fs1)
                      @ FormField (wire_name f) val
                      # map (field_part env) (filter (\<lambda>g. \<not> skipped files g) fs2) @ qs
               \<and> list_all (\<lambda>q. \<exists>n fn c. q = FormFile n fn c) qs))
       \<and> (\<forall>m w. field_step (env\<lparr>json_Marshal := m\<rparr>) files f w = field_step env files f w)
       \<and> (\<forall>n t p x. Value_Kind (field_Val (SField n t p (VPtr x)))
                        \<notin> {KStruct, KMap, KArray, KSlice})"
proof -
  from assms(1) have nc: "\<not> composite f" by (simp add: composite_def)
  have one: "\<exists>val qs. fmt_Sprint env (iface_of f) = Return val
               \<and> ps = map (field_part env) (filter (\<lambda>g. \<not> skipped files g) fs1)
                      @ FormField (wire_name f) val
                      # map (field_part env) (filter (\<lambda>g. \<not> skipped files g) fs2) @ qs
               \<and> list_all (\<lambda>q. \<exists>n fn c. q = FormFile n fn c) qs"
    if "GetMultipartBody env (Some (VStruct (fs1 @ f # fs2))) files s
              = (Return (Some (Multipart ps c), opts, err), s')" for ps c opts err s'
  proof -
    from field_loop_split_body[OF that assms(2)] nc obtain qs val where
      "ps = map (field_part env) (filter (\<lambda>g. \<not> skipped files g) fs1)
                @ field_part env f
                # map (field_part env) (filter (\<lambda>g. \<not> skipped files g) fs2) @ qs"
      "list_all (\<lambda>q. \<exists>n fn c. q = FormFile n fn c) qs"
      "fmt_Sprint env (iface_of f) = Return val"
      by auto
    moreover from this(3) nc have "field_part env f = FormField (wire_name f) val"
      by (simp add: field_part_def field_text_def)
    ultimately show ?thesis by auto
  qed
  have two: "field_step (env\<lparr>json_Marshal := m\<rparr>) files f w = field_step env files f w" for m w
    using assms(1)
    by (simp add: field_step_def WriteField_def fieldName_of_wire_name split: outcome.splits)
  from one two show ?thesis by simp
qed

theorem other_kinds_rendered_by_Sprint_witness:
  "Value_Kind (field_Val markup_field) \<notin> {KStruct, KMap, KArray, KSlice}
   \<and> \<not> skipped [] markup_field
   \<and> fmt_Sprint sample_env (iface_of markup_field) = Return ''&{}''
   \<and> GetMultipartBody sample_env (Some (VStruct ([chat_field] @ markup_field # []))) []
        no_handles
     = (Return (Some (Multipart [FormField ''chat_id'' ''123'',
                                 FormField ''reply_markup'' ''&{}''] True),
                \<lparr>ContentType = ''multipart/form-data; boundary=5c1e''\<rparr>, None),
        no_handles)"
  using other_kinds_rendered_by_Sprint[of markup_field "[]" sample_env "[chat_field]" "[]"
      no_handles]
  by (simp add: eval_defs rule_defs markup_field_def)

end
